theory Spec2Isabelle
  imports Main "HOL-Library.AList" "HOL-Library.Sublist" "HOL-Library.Multiset"
begin

section \<open>JavaScript values\<close>

text \<open>
  The values that reach the ResourceProvider of \<^verbatim>\<open>lib/ResourceProvider.js\<close>. A callable
  is identified by a tag (reference identity). A plain object (\<^verbatim>\<open>_.isPlainObject\<close>, prototype
  \<^verbatim>\<open>Object.prototype\<close>) is the list of its own enumerable properties in the order of their
  creation, and \<open>JInst\<close> is an object with own properties that is not a plain object (a
  class instance).

  Rule objects are held by value: a caller that registers one and the same object under
  two keys shares its \<^verbatim>\<open>$p\<close> property between both slots in JavaScript. No statement below
  speaks about the \<^verbatim>\<open>$p\<close> of a rule that was registered twice.
\<close>

datatype jsval =
    JUndefined
  | JNull
  | JBool bool
  | JNum int
  | JStr string
  | JFun nat
  | JArr "jsval list"
  | JObj "(string \<times> jsval) list"
  | JInst "(string \<times> jsval) list"

type_synonym fields = "(string \<times> jsval) list"

datatype error = TypeError string

fun isString :: "jsval \<Rightarrow> bool" where
  "isString (JStr s) = True"
| "isString v = False"

fun isFunction :: "jsval \<Rightarrow> bool" where
  "isFunction (JFun f) = True"
| "isFunction v = False"

fun isBoolean :: "jsval \<Rightarrow> bool" where
  "isBoolean (JBool b) = True"
| "isBoolean v = False"

fun isUndefined :: "jsval \<Rightarrow> bool" where
  "isUndefined JUndefined = True"
| "isUndefined v = False"

fun isPlainObject :: "jsval \<Rightarrow> bool" where
  "isPlainObject (JObj fs) = True"
| "isPlainObject v = False"

text \<open>\<^verbatim>\<open>!v\<close> is true for the falsy values: undefined, null, false, 0 and the empty string.\<close>

fun falsy :: "jsval \<Rightarrow> bool" where
  "falsy JUndefined = True"
| "falsy JNull = True"
| "falsy (JBool b) = (\<not> b)"
| "falsy (JNum n) = (n = 0)"
| "falsy (JStr s) = (s = [])"
| "falsy v = False"

fun str_of :: "jsval \<Rightarrow> string" where
  "str_of (JStr s) = s"
| "str_of v = []"

text \<open>The own enumerable properties of a value, in the order of their creation.\<close>

fun own_fields :: "jsval \<Rightarrow> fields" where
  "own_fields (JObj fs) = fs"
| "own_fields (JInst fs) = fs"
| "own_fields v = []"

text \<open>
  \<^verbatim>\<open>o[k]\<close> on a plain object whose own properties are \<open>fs\<close>, for a key that
  \<^verbatim>\<open>Object.prototype\<close> does not have: an absent property reads as undefined.
\<close>

definition get_prop :: "fields \<Rightarrow> string \<Rightarrow> jsval" where
  "get_prop fs k = (case map_of fs k of None \<Rightarrow> JUndefined | Some v \<Rightarrow> v)"

text \<open>
  \<^verbatim>\<open>o[k] = v\<close> where the assignment creates or replaces an own property (a stored key keeps
  its place, a new key is created last), and \<^verbatim>\<open>delete o[k]\<close>.
\<close>

definition set_prop :: "('k \<times> 'v) list \<Rightarrow> 'k \<Rightarrow> 'v \<Rightarrow> ('k \<times> 'v) list" where
  "set_prop fs k v = AList.update k v fs"

definition delete_prop :: "('k \<times> 'v) list \<Rightarrow> 'k \<Rightarrow> ('k \<times> 'v) list" where
  "delete_prop fs k = AList.delete k fs"

section \<open>The order of own keys\<close>

text \<open>
  \<^verbatim>\<open>Object.keys\<close>, and with it \<^verbatim>\<open>_.forOwn\<close> and \<^verbatim>\<open>_.extend\<close>, visit the own keys that are array
  indices first, in ascending numeric order, and then all other keys in the order of
  their creation. An array index is the decimal numeral, without leading zero, of a number
  below \<^verbatim>\<open>2^32 - 1\<close>.
\<close>

definition is_digit :: "char \<Rightarrow> bool" where
  "is_digit c = (c \<in> set ''0123456789'')"

definition digit_value :: "char \<Rightarrow> int" where
  "digit_value c = int (length (takeWhile (\<lambda>d. d \<noteq> c) ''0123456789''))"

definition index_value :: "string \<Rightarrow> int" where
  "index_value s = foldl (\<lambda>n c. 10 * n + digit_value c) 0 s"

definition is_array_index :: "string \<Rightarrow> bool" where
  "is_array_index s =
     (s \<noteq> [] \<and> list_all is_digit s \<and> (s = ''0'' \<or> hd s \<noteq> CHR ''0'') \<and>
      index_value s < 4294967295)"

definition js_own_order :: "(string \<times> 'v) list \<Rightarrow> (string \<times> 'v) list" where
  "js_own_order entries =
     sort_key (\<lambda>entry. index_value (fst entry))
       (filter (\<lambda>entry. is_array_index (fst entry)) entries) @
     filter (\<lambda>entry. \<not> is_array_index (fst entry)) entries"

text \<open>
  \<^verbatim>\<open>_.extend(dest, src)\<close>: for every own key of \<open>src\<close>, in the order of \<^verbatim>\<open>Object.keys\<close>,
  \<^verbatim>\<open>dest[key] = src[key]\<close> (a shallow copy, undefined values included). What \<^verbatim>\<open>_.extend\<close> does
  with a source key \<^verbatim>\<open>__proto__\<close> depends on the version of lodash (the setter of
  \<^verbatim>\<open>Object.prototype\<close>, or an own property); here it is an own property, and no statement
  below is about the property \<^verbatim>\<open>__proto__\<close> of a merged record.
\<close>

definition js_extend :: "fields \<Rightarrow> fields \<Rightarrow> fields" where
  "js_extend dest src =
     fold (\<lambda>k d. set_prop d k (get_prop src k)) (map fst (js_own_order src)) dest"

section \<open>Multi-glob keys\<close>

text \<open>
  \<^verbatim>\<open>string.split(sep)\<close> for a non-empty separator: the occurrences of \<open>sep\<close> are found
  from left to right without overlap, \<open>cur\<close> is the segment read so far. The empty string
  splits into one empty segment.
\<close>

function js_split :: "string \<Rightarrow> string \<Rightarrow> string \<Rightarrow> string list" where
  "js_split sep cur s =
     (if s = [] then [cur]
      else if sep \<noteq> [] \<and> prefix sep s then cur # js_split sep [] (drop (length sep) s)
      else js_split sep (cur @ [hd s]) (tl s))"
  by pat_completeness auto
termination
  by (relation "measure (\<lambda>(sep, cur, s). length s)") auto

declare js_split.simps [simp del]

text \<open>\<^verbatim>\<open>array.join(sep)\<close> on an array of strings.\<close>

fun js_join :: "string \<Rightarrow> string list \<Rightarrow> string" where
  "js_join sep [] = []"
| "js_join sep [x] = x"
| "js_join sep (x # y # ys) = x @ sep @ js_join sep (y # ys)"

definition separator :: string where
  "separator = '' | ''"

definition parseGlobMultiPattern :: "string \<Rightarrow> string list" where
  "parseGlobMultiPattern string =
     filter (\<lambda>pattern. pattern \<noteq> []) (js_split separator [] string)"

definition stringifyGlobMultiPattern :: "string list \<Rightarrow> string" where
  "stringifyGlobMultiPattern globs = js_join separator globs"

section \<open>The ResourceProvider\<close>

text \<open>
  The instance: \<^verbatim>\<open>appId\<close>, the \<^verbatim>\<open>_rules\<close> object and the three counters, which are unbounded
  naturals here. \<^verbatim>\<open>_rules\<close> is created as \<^verbatim>\<open>{}\<close>: \<open>rules\<close> holds its own properties (canonical
  key to rule object) in the order of their creation, and \<open>rules_proto\<close> its prototype,
  \<open>None\<close> for \<^verbatim>\<open>Object.prototype\<close> and \<open>Some r\<close> once the rule object \<open>r\<close> has been assigned
  to \<^verbatim>\<open>_rules["__proto__"]\<close>.
\<close>

record provider =
  appId :: string
  rules :: "(string \<times> fields) list"
  rules_proto :: "fields option"
  dynamicHandlerCount :: nat
  staticRerouteCount :: nat
  staticLockCount :: nat

text \<open>Lines 140 to 151 of \<^verbatim>\<open>_useRule\<close>: a bare action is wrapped, a plain object is kept.\<close>

definition accept_rule :: "jsval \<Rightarrow> error + fields" where
  "accept_rule rule =
     (if isFunction rule \<or> isString rule \<or> isBoolean rule then Inr [(''action'', rule)]
      else if isPlainObject rule \<and>
              (isUndefined (get_prop (own_fields rule) ''action'') \<or>
               isFunction (get_prop (own_fields rule) ''action'') \<or>
               isString (get_prop (own_fields rule) ''action'') \<or>
               isBoolean (get_prop (own_fields rule) ''action''))
      then Inr (own_fields rule)
      else Inl (TypeError ''rule is no supported Rule type/config''))"

text \<open>Lines 155 to 166: the counter of the action's kind goes up by one.\<close>

definition count_action :: "provider \<Rightarrow> jsval \<Rightarrow> provider" where
  "count_action this action =
     (if isFunction action then this\<lparr>dynamicHandlerCount := dynamicHandlerCount this + 1\<rparr>
      else if isString action then this\<lparr>staticRerouteCount := staticRerouteCount this + 1\<rparr>
      else if action = JBool False then this\<lparr>staticLockCount := staticLockCount this + 1\<rparr>
      else this)"

text \<open>
  Line 168, \<^verbatim>\<open>this._rules[globs] = rule\<close>. The assignment replaces an own property, and
  creates one for every new key but \<^verbatim>\<open>__proto__\<close>: that key is an accessor of
  \<^verbatim>\<open>Object.prototype\<close>, whose setter makes the rule object the prototype of \<^verbatim>\<open>_rules\<close> and
  stores no own property. The setter is reached unless the present prototype, a rule
  object, has an own property of that name (then the assignment creates an own property
  like for any other key).
\<close>

definition sets_prototype :: "provider \<Rightarrow> string \<Rightarrow> bool" where
  "sets_prototype this globs =
     (globs = ''__proto__'' \<and> globs \<notin> fst ` set (rules this) \<and>
      (case rules_proto this of None \<Rightarrow> True | Some r \<Rightarrow> map_of r ''__proto__'' = None))"

definition rules_assign :: "provider \<Rightarrow> string \<Rightarrow> fields \<Rightarrow> provider" where
  "rules_assign this globs rule =
     (if sets_prototype this globs then this\<lparr>rules_proto := Some rule\<rparr>
      else this\<lparr>rules := set_prop (rules this) globs rule\<rparr>)"

definition useRule :: "provider \<Rightarrow> jsval \<Rightarrow> jsval \<Rightarrow> error + (string \<times> provider)" where
  "useRule this globs rule =
     (if \<not> isString globs then Inl (TypeError ''globs is no string'')
      else case accept_rule rule of
        Inl e \<Rightarrow> Inl e
      | Inr rule0 \<Rightarrow>
          let p = parseGlobMultiPattern (str_of globs);
              rule1 = set_prop rule0 ''$p'' (JArr (map JStr p));
              globs1 = stringifyGlobMultiPattern p;
              this1 = count_action this (get_prop rule1 ''action'')
          in Inr (globs1, rules_assign this1 globs1 rule1))"

text \<open>
  A sequence of \<^verbatim>\<open>_useRule\<close> calls with string keys, such as the \<^verbatim>\<open>_.forOwn\<close> loop of
  \<^verbatim>\<open>_useRules\<close> makes; an exception of \<^verbatim>\<open>_useRule\<close> ends it.
\<close>

fun forOwn_useRule :: "provider \<Rightarrow> (string \<times> jsval) list \<Rightarrow> error + provider" where
  "forOwn_useRule this [] = Inr this"
| "forOwn_useRule this ((pattern, rule) # rest) =
     (case useRule this (JStr pattern) rule of
        Inl e \<Rightarrow> Inl e
      | Inr (globs, this1) \<Rightarrow> forOwn_useRule this1 rest)"

definition useRules :: "provider \<Rightarrow> jsval \<Rightarrow> error + provider" where
  "useRules this ruleset =
     (if falsy ruleset then Inr this
      else if \<not> isPlainObject ruleset then Inl (TypeError ''ruleset is no plain Object'')
      else forOwn_useRule this (js_own_order (own_fields ruleset)))"

text \<open>
  The constructor. \<open>config_rules\<close> is \<^verbatim>\<open>_.extend({map: {}, rules: {}}, config).rules\<close> (a
  \<^verbatim>\<open>config\<close> that is no object contributes no \<^verbatim>\<open>rules\<close>), and \<open>new_provider\<close> is the instance
  before \<^verbatim>\<open>_useRules\<close> runs: no rules, the counters at the 0 of the prototype.
\<close>

definition config_rules :: "jsval \<Rightarrow> jsval" where
  "config_rules config =
     get_prop (js_extend [(''map'', JObj []), (''rules'', JObj [])] (own_fields config)) ''rules''"

definition new_provider :: "string \<Rightarrow> provider" where
  "new_provider a =
     \<lparr>appId = a, rules = [], rules_proto = None,
      dynamicHandlerCount = 0, staticRerouteCount = 0, staticLockCount = 0\<rparr>"

definition ResourceProvider :: "jsval \<Rightarrow> jsval \<Rightarrow> error + provider" where
  "ResourceProvider appId0 config =
     (if \<not> isString appId0 then Inl (TypeError ''appId is no string'')
      else useRules (new_provider (str_of appId0)) (config_rules config))"

definition handleResourcePath :: "provider \<Rightarrow> jsval \<Rightarrow> error + jsval" where
  "handleResourcePath this resourcePath =
     (if \<not> isString resourcePath then Inl (TypeError ''resourcePath is no string'')
      else Inr JNull)"

text \<open>
  \<^verbatim>\<open>path.normalize\<close> of Node and \<^verbatim>\<open>multimatch\<close> are libraries outside the repository. They
  are parameters of the model, taken as total functions: \<open>path_normalize\<close> maps a path to a
  path, \<open>multimatch p ps\<close> is the list of matches of the path \<open>p\<close> against the value \<open>ps\<close>
  of the rule's \<^verbatim>\<open>$p\<close> property.
\<close>

definition normalizeResourcePath :: "(string \<Rightarrow> string) \<Rightarrow> jsval \<Rightarrow> error + string" where
  "normalizeResourcePath path_normalize resourcePath =
     (if \<not> isString resourcePath then Inl (TypeError ''resourcePath is no string'')
      else Inr (path_normalize (str_of resourcePath)))"

text \<open>The body of the \<^verbatim>\<open>_.forOwn\<close> callback of \<^verbatim>\<open>getRulesFor\<close>, on the pair
  (\<^verbatim>\<open>appliedRules\<close>, \<^verbatim>\<open>combinedRules\<close>).\<close>

definition collect_rule ::
  "(string \<Rightarrow> jsval \<Rightarrow> string list) \<Rightarrow> string \<Rightarrow> string \<times> fields \<Rightarrow>
   string list \<times> fields \<Rightarrow> string list \<times> fields" where
  "collect_rule multimatch resourcePath entry acc =
     (if length (multimatch resourcePath (get_prop (snd entry) ''$p'')) > 0
      then (fst acc @ [fst entry], js_extend (snd acc) (snd entry))
      else acc)"

text \<open>\<^verbatim>\<open>_.forOwn(this._rules, ...)\<close> visits the own keys of \<^verbatim>\<open>_rules\<close> in the order of
  \<^verbatim>\<open>Object.keys\<close>.\<close>

definition getRulesFor ::
  "(string \<Rightarrow> jsval \<Rightarrow> string list) \<Rightarrow> (string \<Rightarrow> string) \<Rightarrow> provider \<Rightarrow> jsval \<Rightarrow>
   error + fields" where
  "getRulesFor multimatch path_normalize this resourcePath =
     (case normalizeResourcePath path_normalize resourcePath of
        Inl e \<Rightarrow> Inl e
      | Inr path \<Rightarrow>
          let acc = fold (collect_rule multimatch path) (js_own_order (rules this)) ([], []);
              combined1 = delete_prop (snd acc) ''$p'';
              combined2 = set_prop combined1 ''$ps'' (JArr (map JStr (fst acc)));
              combined3 = set_prop combined2 ''$target'' (JStr path)
          in Inr combined3)"

text \<open>
  \<^verbatim>\<open>getRule\<close> returns \<^verbatim>\<open>this._rules[globs]\<close>. The read finds an own property, or else follows
  the prototype chain: the rule object that was made the prototype, if any, and then
  \<^verbatim>\<open>Object.prototype\<close>. \<open>Builtin k\<close> is the member \<open>k\<close> of \<^verbatim>\<open>Object.prototype\<close> (a function),
  and \<open>ObjectPrototype\<close> is that object itself, which the getter \<^verbatim>\<open>__proto__\<close> returns for an
  object without another prototype.
\<close>

datatype lookup = Value jsval | Builtin string | ObjectPrototype

definition object_prototype_names :: "string list" where
  "object_prototype_names =
     [''constructor'', ''toString'', ''toLocaleString'', ''valueOf'', ''hasOwnProperty'',
      ''isPrototypeOf'', ''propertyIsEnumerable'', ''__defineGetter__'', ''__defineSetter__'',
      ''__lookupGetter__'', ''__lookupSetter__'']"

definition object_prototype_read :: "string \<Rightarrow> lookup \<Rightarrow> lookup" where
  "object_prototype_read k prototype =
     (if k = ''__proto__'' then prototype
      else if k \<in> set object_prototype_names then Builtin k
      else Value JUndefined)"

definition rules_read :: "provider \<Rightarrow> string \<Rightarrow> lookup" where
  "rules_read this globs =
     (case map_of (rules this) globs of
        Some rule \<Rightarrow> Value (JObj rule)
      | None \<Rightarrow>
          (case rules_proto this of
             None \<Rightarrow> object_prototype_read globs ObjectPrototype
           | Some r \<Rightarrow>
               (case map_of r globs of
                  Some v \<Rightarrow> Value v
                | None \<Rightarrow> object_prototype_read globs (Value (JObj r)))))"

definition getRule :: "provider \<Rightarrow> jsval \<Rightarrow> error + lookup" where
  "getRule this globs =
     (if \<not> isString globs then Inl (TypeError ''globs is no string'')
      else
        let globs1 = stringifyGlobMultiPattern (parseGlobMultiPattern (str_of globs))
        in Inr (rules_read this globs1))"

section \<open>Notions used in the statements\<close>

text \<open>
  The canonical form of a key, \<^verbatim>\<open>stringifyGlobMultiPattern(parseGlobMultiPattern(globs))\<close>; a
  key is canonical when normalising it gives the key back.
\<close>

definition canonical_key :: "string \<Rightarrow> string" where
  "canonical_key globs = stringifyGlobMultiPattern (parseGlobMultiPattern globs)"


text \<open>
  The stored rules that match a path, in the order \<^verbatim>\<open>_.forOwn\<close> visits them, and the
  record that \<^verbatim>\<open>getRulesFor\<close> accumulates from a list of rules.
\<close>

definition matching_rules ::
  "(string \<Rightarrow> jsval \<Rightarrow> string list) \<Rightarrow> string \<Rightarrow> provider \<Rightarrow> (string \<times> fields) list" where
  "matching_rules multimatch path this =
     filter (\<lambda>entry. length (multimatch path (get_prop (snd entry) ''$p'')) > 0)
       (js_own_order (rules this))"

definition merge_rules :: "(string \<times> fields) list \<Rightarrow> fields" where
  "merge_rules entries = fold (\<lambda>entry combined. js_extend combined (snd entry)) entries []"

text \<open>
  The keys of a sequence of registrations in the order of their first occurrence: every
  key once, at the place where it comes first.
\<close>

definition first_registrations :: "string list \<Rightarrow> string list" where
  "first_registrations keys = rev (remdups (rev keys))"

text \<open>
  A matcher for literal patterns, to instantiate the matcher parameter at concrete
  inputs: a path matches a pattern that is equal to it, with or without the trailing
  slash of the path.
\<close>

fun arr_items :: "jsval \<Rightarrow> jsval list" where
  "arr_items (JArr vs) = vs"
| "arr_items v = []"

definition literal_multimatch :: "string \<Rightarrow> jsval \<Rightarrow> string list" where
  "literal_multimatch path patterns =
     (if list_ex (\<lambda>v. isString v \<and> (str_of v = path \<or> str_of v @ ''/'' = path)) (arr_items patterns)
      then [path] else [])"

text \<open>
  How \<open>js_split\<close> cuts: a segment that a separator follows is closed (no separator starts
  inside it, not even one that would run into the following separator), the last segment
  is open (it contains no separator).
\<close>

fun closed_seg :: "string \<Rightarrow> string \<Rightarrow> bool" where
  "closed_seg sep [] = True"
| "closed_seg sep (c # cs) = (\<not> prefix sep (c # cs @ sep) \<and> closed_seg sep cs)"

fun open_seg :: "string \<Rightarrow> string \<Rightarrow> bool" where
  "open_seg sep [] = True"
| "open_seg sep (c # cs) = (\<not> prefix sep (c # cs) \<and> open_seg sep cs)"

fun well_cut :: "string \<Rightarrow> string list \<Rightarrow> bool" where
  "well_cut sep [] = True"
| "well_cut sep [x] = open_seg sep x"
| "well_cut sep (x # y # ys) = (closed_seg sep x \<and> well_cut sep (y # ys))"







section \<open>Splitting and joining\<close>

lemma js_split_Nil: "js_split sep cur [] = [cur]"
  by (simp add: js_split.simps)

lemma js_split_sep:
  "sep \<noteq> [] \<Longrightarrow> js_split sep cur (sep @ s) = cur # js_split sep [] s"
  by (subst js_split.simps) simp

lemma js_split_step:
  "\<not> prefix sep (c # s) \<Longrightarrow> js_split sep cur (c # s) = js_split sep (cur @ [c]) s"
  by (subst js_split.simps) simp

lemma js_split_not_Nil: "js_split sep cur s \<noteq> []"
  by (induction sep cur s rule: js_split.induct) (subst js_split.simps, simp)

lemma js_join_Cons: "xs \<noteq> [] \<Longrightarrow> js_join sep (x # xs) = x @ sep @ js_join sep xs"
  by (cases xs) simp_all

lemma js_join_split: "sep \<noteq> [] \<Longrightarrow> js_join sep (js_split sep cur s) = cur @ s"
proof (induction sep cur s rule: js_split.induct)
  case (1 sep cur s)
  show ?case
  proof (cases s)
    case Nil
    then show ?thesis by (simp add: js_split_Nil)
  next
    case (Cons c t)
    show ?thesis
    proof (cases "prefix sep s")
      case True
      then obtain u where u: "s = sep @ u" by (auto simp: prefix_def)
      have "js_join sep (js_split sep [] u) = u"
        using 1(1) True 1(3) u Cons by simp
      then show ?thesis
        using u 1(3) by (simp add: js_split_sep js_join_Cons js_split_not_Nil)
    next
      case False
      have "js_join sep (js_split sep (cur @ [c]) t) = (cur @ [c]) @ t"
        using 1(2) False 1(3) Cons by simp
      then show ?thesis
        using False Cons by (simp add: js_split_step)
    qed
  qed
qed

lemma js_split_pre:
  "js_split sep (pre @ cur) s = (pre @ hd (js_split sep cur s)) # tl (js_split sep cur s)"
proof (induction sep cur s arbitrary: pre rule: js_split.induct)
  case (1 sep cur s)
  show ?case
  proof (cases s)
    case Nil
    then show ?thesis by (simp add: js_split_Nil)
  next
    case (Cons c t)
    show ?thesis
    proof (cases "sep \<noteq> [] \<and> prefix sep s")
      case True
      then obtain u where u: "s = sep @ u" by (auto simp: prefix_def)
      then show ?thesis using True by (simp add: js_split_sep)
    next
      case False
      have a: "js_split sep (pre @ cur) s = js_split sep ((pre @ cur) @ [c]) t"
        using False Cons by (subst js_split.simps) auto
      have b: "js_split sep cur s = js_split sep (cur @ [c]) t"
        using False Cons by (subst js_split.simps) auto
      have "js_split sep (pre @ (cur @ [hd s])) (tl s) =
          (pre @ hd (js_split sep (cur @ [hd s]) (tl s))) # tl (js_split sep (cur @ [hd s]) (tl s))"
        using 1(2) False Cons by blast
      then show ?thesis using a b Cons by simp
    qed
  qed
qed

lemma js_split_cur:
  "js_split sep cur s = (cur @ hd (js_split sep [] s)) # tl (js_split sep [] s)"
  using js_split_pre [of sep cur "[]" s] by simp

lemma closed_seg_open: "closed_seg sep x \<Longrightarrow> open_seg sep x"
proof (induction x)
  case Nil
  then show ?case by simp
next
  case (Cons c cs)
  have "prefix sep (c # cs) \<Longrightarrow> prefix sep (c # cs @ sep)"
    using prefix_prefix [of sep "c # cs" sep] by simp
  with Cons show ?case by auto
qed

lemma js_split_open: "open_seg sep x \<Longrightarrow> js_split sep cur x = [cur @ x]"
proof (induction x arbitrary: cur)
  case Nil
  then show ?case by (simp add: js_split_Nil)
next
  case (Cons c cs)
  then show ?case by (simp add: js_split_step)
qed

lemma js_split_closed:
  "sep \<noteq> [] \<Longrightarrow> closed_seg sep x \<Longrightarrow>
   js_split sep cur (x @ sep @ rest) = (cur @ x) # js_split sep [] rest"
proof (induction x arbitrary: cur)
  case Nil
  then show ?case by (simp add: js_split_sep)
next
  case (Cons c cs)
  have "\<not> prefix sep (c # cs @ sep @ rest)"
  proof
    assume "prefix sep (c # cs @ sep @ rest)"
    then have "prefix sep ((c # cs @ sep) @ rest)" by simp
    then have "prefix sep (c # cs @ sep)"
      unfolding prefix_append by (auto simp: prefix_def)
    with Cons.prems show False by simp
  qed
  then show ?case using Cons by (simp add: js_split_step)
qed

lemma js_split_join:
  "sep \<noteq> [] \<Longrightarrow> well_cut sep xs \<Longrightarrow> xs \<noteq> [] \<Longrightarrow> js_split sep [] (js_join sep xs) = xs"
proof (induction sep xs rule: well_cut.induct)
  case (1 sep)
  then show ?case by simp
next
  case (2 sep x)
  then show ?case by (simp add: js_split_open)
next
  case (3 sep x y ys)
  then show ?case by (simp add: js_split_closed)
qed

lemma well_cut_js_split: "sep \<noteq> [] \<Longrightarrow> well_cut sep (js_split sep [] s)"
proof (induction s rule: length_induct)
  case (1 s)
  show ?case
  proof (cases s)
    case Nil
    then show ?thesis by (simp add: js_split_Nil)
  next
    case (Cons c t)
    show ?thesis
    proof (cases "prefix sep s")
      case True
      then obtain u where u: "s = sep @ u" by (auto simp: prefix_def)
      have "length u < length s" using u 1(2) by simp
      then have "well_cut sep (js_split sep [] u)" using 1 by blast
      moreover obtain x xs where "js_split sep [] u = x # xs"
        using js_split_not_Nil [of sep "[]" u] by (cases "js_split sep [] u") auto
      ultimately show ?thesis using u 1(2) by (simp add: js_split_sep)
    next
      case False
      obtain x xs where X: "js_split sep [] t = x # xs"
        using js_split_not_Nil [of sep "[]" t] by (cases "js_split sep [] t") auto
      have wc: "well_cut sep (x # xs)" using 1 Cons X by force
      have t: "js_join sep (x # xs) = t"
        using js_join_split [of sep "[]" t] 1(2) X by simp
      have S: "js_split sep [] s = (c # x) # xs"
        using False Cons js_split_cur [of sep "[c]" t] X by (simp add: js_split_step)
      show ?thesis
      proof (cases xs)
        case Nil
        then show ?thesis using S wc t False Cons by simp
      next
        case (Cons y ys)
        have "\<not> prefix sep (c # x @ sep)"
        proof
          assume "prefix sep (c # x @ sep)"
          then have "prefix sep ((c # x @ sep) @ js_join sep (y # ys))"
            using prefix_prefix by blast
          then show False using False t Cons \<open>s = c # t\<close> by simp
        qed
        then show ?thesis using S wc Cons by simp
      qed
    qed
  qed
qed

lemma well_cut_filter: "well_cut sep xs \<Longrightarrow> well_cut sep (filter (\<lambda>x. x \<noteq> []) xs)"
proof (induction sep xs rule: well_cut.induct)
  case (1 sep)
  then show ?case by simp
next
  case (2 sep x)
  then show ?case by simp
next
  case (3 sep x y ys)
  then have ih: "well_cut sep (filter (\<lambda>x. x \<noteq> []) (y # ys))" by simp
  show ?case
  proof (cases "filter (\<lambda>x. x \<noteq> []) (y # ys)")
    case Nil
    then show ?thesis using 3 by (auto simp: closed_seg_open)
  next
    case (Cons z zs)
    then show ?thesis using 3 ih by (cases "x = []") auto
  qed
qed

lemma parse_stringify_parse:
  "parseGlobMultiPattern (stringifyGlobMultiPattern (parseGlobMultiPattern k)) =
   parseGlobMultiPattern k"
proof (cases "parseGlobMultiPattern k = []")
  case True
  then show ?thesis
    by (simp add: stringifyGlobMultiPattern_def)
       (simp add: parseGlobMultiPattern_def js_split_Nil)
next
  case False
  have sep: "separator \<noteq> []" by (simp add: separator_def)
  have "well_cut separator (parseGlobMultiPattern k)"
    unfolding parseGlobMultiPattern_def
    by (rule well_cut_filter) (rule well_cut_js_split [OF sep])
  then have "js_split separator [] (js_join separator (parseGlobMultiPattern k)) =
      parseGlobMultiPattern k"
    using js_split_join [OF sep] False by blast
  then show ?thesis
    by (simp add: parseGlobMultiPattern_def stringifyGlobMultiPattern_def)
qed

section \<open>Properties of the enumeration order\<close>


lemma set_js_own_order: "set (js_own_order xs) = set xs"
  by (auto simp: js_own_order_def)

lemma list_all_js_own_order: "list_all P (js_own_order xs) = list_all P xs"
  by (simp add: list_all_iff set_js_own_order)



lemma js_own_order_no_index:
  "list_all (\<lambda>entry. \<not> is_array_index (fst entry)) xs \<Longrightarrow> js_own_order xs = xs"
  by (simp add: js_own_order_def list_all_iff filter_id_conv filter_empty_conv)

lemma not_array_index:
  "\<not> is_array_index []"
  "\<not> is_digit c \<Longrightarrow> \<not> is_array_index (c # s)"
  by (simp_all add: is_array_index_def)

lemma not_digit_examples:
  "\<not> is_digit CHR ''a''" "\<not> is_digit CHR ''l''" "\<not> is_digit CHR ''$''" "\<not> is_digit CHR ''_''"
  "\<not> is_digit CHR ''d''" "\<not> is_digit CHR ''x''" "\<not> is_digit CHR ''f''" "\<not> is_digit CHR ''*''"
  by (simp_all add: is_digit_def)

section \<open>Objects and registration\<close>

lemma map_of_set_prop: "map_of (set_prop fs k v) = (map_of fs)(k \<mapsto> v)"
  by (simp add: set_prop_def update_conv')


lemma keys_set_prop:
  "map fst (set_prop fs k v) = (if k \<in> set (map fst fs) then map fst fs else map fst fs @ [k])"
  by (simp add: set_prop_def update_keys)


lemma map_of_fold_assign:
  "set ks \<subseteq> fst ` set src \<Longrightarrow>
   map_of (fold (\<lambda>k d. set_prop d k (get_prop src k)) ks dest) =
   map_of dest ++ (map_of src |` set ks)"
proof (induction ks arbitrary: dest)
  case Nil
  then show ?case by simp
next
  case (Cons k ks)
  then obtain v where v: "map_of src k = Some v"
    by (cases "map_of src k") (auto simp: map_of_eq_None_iff)
  have "map_of (fold (\<lambda>k d. set_prop d k (get_prop src k)) ks (set_prop dest k (get_prop src k))) =
      map_of (set_prop dest k (get_prop src k)) ++ (map_of src |` set ks)"
    using Cons by simp
  also have "\<dots> = map_of dest ++ (map_of src |` set (k # ks))"
    using v by (auto simp: map_of_set_prop get_prop_def fun_eq_iff map_add_def restrict_map_def
        split: option.splits)
  finally show ?case by simp
qed

lemma map_of_js_extend: "map_of (js_extend dest src) = map_of dest ++ map_of src"
proof -
  have k: "set (map fst (js_own_order src)) = fst ` set src"
    by (simp add: set_js_own_order)
  have "map_of src |` (fst ` set src) = map_of src"
  proof (rule ext)
    fix x
    show "(map_of src |` (fst ` set src)) x = map_of src x"
      by (cases "map_of src x") (force simp: restrict_map_def dest: map_of_SomeD)+
  qed
  then show ?thesis
    using map_of_fold_assign [of "map fst (js_own_order src)" src dest] k
    by (simp add: js_extend_def)
qed

lemma config_rules_eq:
  "config_rules config =
     (case map_of (own_fields config) ''rules'' of None \<Rightarrow> JObj [] | Some v \<Rightarrow> v)"
  by (simp add: config_rules_def get_prop_def map_of_js_extend map_add_def split: option.splits)

lemma count_action_fields [simp]:
  "rules (count_action this a) = rules this"
  "rules_proto (count_action this a) = rules_proto this"
  "appId (count_action this a) = appId this"
  by (simp_all add: count_action_def)

lemma sets_prototype_count_action [simp]:
  "sets_prototype (count_action this a) k = sets_prototype this k"
  by (simp add: sets_prototype_def)


lemma useRule_rejected:
  "\<not> isString globs \<Longrightarrow> useRule this globs rule = Inl (TypeError ''globs is no string'')"
  "isString globs \<Longrightarrow> accept_rule rule = Inl e \<Longrightarrow> useRule this globs rule = Inl e"
  by (simp_all add: useRule_def)

lemma useRule_Inr_iff:
  "(\<exists>res. useRule this globs rule = Inr res) \<longleftrightarrow> isString globs \<and> \<not> isl (accept_rule rule)"
  by (cases "accept_rule rule") (auto simp: useRule_def Let_def)


lemma getRule_string:
  "isString globs \<Longrightarrow> getRule this globs = Inr (rules_read this (canonical_key (str_of globs)))"
  by (simp add: getRule_def canonical_key_def)





lemma forOwn_useRule_Inr_iff:
  "(\<exists>this'. forOwn_useRule this regs = Inr this') \<longleftrightarrow>
   list_all (\<lambda>reg. \<not> isl (accept_rule (snd reg))) regs"
proof (induction regs arbitrary: this)
  case Nil
  then show ?case by simp
next
  case (Cons reg regs)
  obtain pattern rule where reg: "reg = (pattern, rule)" by (cases reg)
  show ?case
  proof (cases "isl (accept_rule rule)")
    case True
    then have "\<not> (\<exists>res. useRule this (JStr pattern) rule = Inr res)"
      using useRule_Inr_iff [of this "JStr pattern" rule] by blast
    then show ?thesis using True reg
      by (cases "useRule this (JStr pattern) rule") auto
  next
    case False
    then obtain key this1 where u: "useRule this (JStr pattern) rule = Inr (key, this1)"
      using useRule_Inr_iff [of this "JStr pattern" rule] by auto
    then show ?thesis using False reg Cons.IH [of this1] by simp
  qed
qed



















section \<open>Path resolution\<close>

lemma fold_collect_rule:
  "fold (collect_rule mm p) rs acc =
     (fst acc @ map fst (filter (\<lambda>entry. length (mm p (get_prop (snd entry) ''$p'')) > 0) rs),
      fold (\<lambda>entry combined. js_extend combined (snd entry))
        (filter (\<lambda>entry. length (mm p (get_prop (snd entry) ''$p'')) > 0) rs) (snd acc))"
  by (induction rs arbitrary: acc) (simp_all add: collect_rule_def)

lemma getRulesFor_string:
  "getRulesFor mm norm this (JStr path) =
     Inr (set_prop
           (set_prop (delete_prop (merge_rules (matching_rules mm (norm path) this)) ''$p'')
              ''$ps'' (JArr (map JStr (map fst (matching_rules mm (norm path) this)))))
           ''$target'' (JStr (norm path)))"
  by (simp add: getRulesFor_def normalizeResourcePath_def fold_collect_rule Let_def
      matching_rules_def merge_rules_def)





lemma parse_examples:
  "parseGlobMultiPattern ''locked/'' = [''locked/'']"
  "parseGlobMultiPattern ''locked/unlocked'' = [''locked/unlocked'']"
  "parseGlobMultiPattern ''locked | lockedB'' = [''locked'', ''lockedB'']"
  by code_simp+

lemma stringify_examples:
  "stringifyGlobMultiPattern [''locked/''] = ''locked/''"
  "stringifyGlobMultiPattern [''locked/unlocked''] = ''locked/unlocked''"
  "stringifyGlobMultiPattern [''locked'', ''lockedB''] = ''locked | lockedB''"
  by code_simp+

lemma js_own_order_examples:
  "js_own_order [(''action'', x), (''$p'', y)] = [(''action'', x), (''$p'', y)]"
  "js_own_order [(''locked | lockedB'', z)] = [(''locked | lockedB'', z)]"
  "js_own_order [(''locked/'', z), (''locked/unlocked'', w)] =
     [(''locked/'', z), (''locked/unlocked'', w)]"
  by (rule js_own_order_no_index, simp add: not_array_index not_digit_examples)+


lemma provider_locked_lockedB:
  "ResourceProvider (JStr a) (JObj [(''rules'', JObj [(''locked | lockedB'', JBool False)])]) =
   Inr \<lparr>appId = a,
        rules = [(''locked | lockedB'',
                  [(''action'', JBool False), (''$p'', JArr [JStr ''locked'', JStr ''lockedB''])])],
        rules_proto = None,
        dynamicHandlerCount = 0, staticRerouteCount = 0, staticLockCount = 1\<rparr>"
  by (simp add: ResourceProvider_def useRules_def config_rules_eq useRule_def accept_rule_def
      Let_def parse_examples stringify_examples count_action_def new_provider_def set_prop_def
      get_prop_def js_own_order_examples rules_assign_def sets_prototype_def)

lemmas eval_merge = getRulesFor_string matching_rules_def merge_rules_def js_extend_def
  set_prop_def delete_prop_def get_prop_def js_own_order_examples

section \<open>Sequences of registrations\<close>



lemma first_registrations_snoc:
  "first_registrations (ks @ [k]) =
     (if k \<in> set ks then first_registrations ks else first_registrations ks @ [k])"
  by (simp add: first_registrations_def)




lemma distinct_keys_set_prop:
  "distinct (map fst xs) \<Longrightarrow> distinct (map fst (set_prop xs k v))"
  by (simp add: keys_set_prop)




section \<open>Claims\<close>













text \<open>
  C5. With the one rule \<^verbatim>\<open>"locked | lockedB"\<close> registered as \<^verbatim>\<open>false\<close>, the paths \<^verbatim>\<open>"locked/"\<close>
  and \<^verbatim>\<open>"lockedB/"\<close> both resolve to the action \<^verbatim>\<open>false\<close> through that one rule, for every
  matcher that matches each path against the pattern list \<^verbatim>\<open>["locked", "lockedB"]\<close>.
\<close>

theorem getRulesFor_multi_pattern:
  assumes "mm (norm ''locked/'') (JArr [JStr ''locked'', JStr ''lockedB'']) \<noteq> []"
    and "mm (norm ''lockedB/'') (JArr [JStr ''locked'', JStr ''lockedB'']) \<noteq> []"
  shows "\<exists>this res1 res2.
     ResourceProvider (JStr a) (JObj [(''rules'', JObj [(''locked | lockedB'', JBool False)])])
       = Inr this \<and>
     map fst (rules this) = [''locked | lockedB''] \<and>
     getRulesFor mm norm this (JStr ''locked/'') = Inr res1 \<and>
     get_prop res1 ''action'' = JBool False \<and>
     get_prop res1 ''$ps'' = JArr [JStr ''locked | lockedB''] \<and>
     getRulesFor mm norm this (JStr ''lockedB/'') = Inr res2 \<and>
     get_prop res2 ''action'' = JBool False \<and>
     get_prop res2 ''$ps'' = JArr [JStr ''locked | lockedB'']"
  using assms unfolding provider_locked_lockedB by (simp add: eval_merge)

theorem getRulesFor_multi_pattern_witness:
  "\<exists>this res1 res2.
     ResourceProvider (JStr ''app'') (JObj [(''rules'', JObj [(''locked | lockedB'', JBool False)])])
       = Inr this \<and>
     map fst (rules this) = [''locked | lockedB''] \<and>
     getRulesFor literal_multimatch (\<lambda>p. p) this (JStr ''locked/'') = Inr res1 \<and>
     get_prop res1 ''action'' = JBool False \<and>
     get_prop res1 ''$ps'' = JArr [JStr ''locked | lockedB''] \<and>
     getRulesFor literal_multimatch (\<lambda>p. p) this (JStr ''lockedB/'') = Inr res2 \<and>
     get_prop res2 ''action'' = JBool False \<and>
     get_prop res2 ''$ps'' = JArr [JStr ''locked | lockedB'']"
proof -
  have 1: "literal_multimatch ''locked/'' (JArr [JStr ''locked'', JStr ''lockedB'']) \<noteq> []"
    by code_simp
  have 2: "literal_multimatch ''lockedB/'' (JArr [JStr ''locked'', JStr ''lockedB'']) \<noteq> []"
    by code_simp
  show ?thesis
    by (rule getRulesFor_multi_pattern [of literal_multimatch "\<lambda>p. p" "''app''", OF 1 2])
qed

text \<open>
  C6. Normalising a key is idempotent: for every key \<open>k\<close> none of whose segments between
  the \<^verbatim>\<open>" | "\<close> separators is empty, joining the parsed patterns again gives \<open>k\<close> itself,
  \<^verbatim>\<open>stringify(parse(k)) === k\<close>; and for every key at all, normalising the normalised key
  changes nothing.
\<close>

theorem stringify_parse_id:
  "((\<forall>seg\<in>set (js_split separator [] k). seg \<noteq> []) \<longrightarrow>
      stringifyGlobMultiPattern (parseGlobMultiPattern k) = k) \<and>
   stringifyGlobMultiPattern
     (parseGlobMultiPattern (stringifyGlobMultiPattern (parseGlobMultiPattern k))) =
   stringifyGlobMultiPattern (parseGlobMultiPattern k)"
proof (intro conjI impI)
  assume "\<forall>seg\<in>set (js_split separator [] k). seg \<noteq> []"
  then have "filter (\<lambda>pattern. pattern \<noteq> []) (js_split separator [] k) = js_split separator [] k"
    by (simp add: filter_id_conv)
  then show "stringifyGlobMultiPattern (parseGlobMultiPattern k) = k"
    using js_join_split [of separator "[]" k]
    by (simp add: parseGlobMultiPattern_def stringifyGlobMultiPattern_def separator_def)
next
  show "stringifyGlobMultiPattern
     (parseGlobMultiPattern (stringifyGlobMultiPattern (parseGlobMultiPattern k))) =
   stringifyGlobMultiPattern (parseGlobMultiPattern k)"
    by (simp add: parse_stringify_parse)
qed

theorem stringify_parse_id_witness:
  "js_split separator [] ''locked | lockedB'' = [''locked'', ''lockedB''] \<and>
   stringifyGlobMultiPattern (parseGlobMultiPattern ''locked | lockedB'') = ''locked | lockedB'' \<and>
   stringifyGlobMultiPattern (parseGlobMultiPattern ''a |  | b | '') = ''a | b'' \<and>
   stringifyGlobMultiPattern (parseGlobMultiPattern ''a | b'') = ''a | b''"
proof -
  have segs: "js_split separator [] ''locked | lockedB'' = [''locked'', ''lockedB'']"
    by code_simp
  have c: "stringifyGlobMultiPattern (parseGlobMultiPattern ''a |  | b | '') = ''a | b''"
    by code_simp
  from segs have 1: "stringifyGlobMultiPattern (parseGlobMultiPattern ''locked | lockedB'') =
      ''locked | lockedB''"
    using stringify_parse_id [of "''locked | lockedB''"] by simp
  have 2: "stringifyGlobMultiPattern (parseGlobMultiPattern ''a | b'') = ''a | b''"
    using stringify_parse_id [of "''a |  | b | ''"] c by simp
  from segs c 1 2 show ?thesis by simp
qed

text \<open>
  C7, as amended. A non-string \<^verbatim>\<open>appId\<close> always fails with the type error of the
  constructor. With a string \<^verbatim>\<open>appId\<close>, construction succeeds exactly when \<^verbatim>\<open>config.rules\<close>
  (an empty object when \<^verbatim>\<open>config\<close> has no such property) is falsy, or is a plain object
  whose every value \<^verbatim>\<open>_useRule\<close> accepts; in particular when \<^verbatim>\<open>config\<close> is absent or has no
  \<^verbatim>\<open>rules\<close>, and then the provider is the empty one.
\<close>

theorem construction_outcome:
  "(\<not> isString a \<longrightarrow> ResourceProvider a config = Inl (TypeError ''appId is no string'')) \<and>
   (isString a \<longrightarrow>
      ((\<exists>this. ResourceProvider a config = Inr this) \<longleftrightarrow>
         falsy (config_rules config) \<or>
         isPlainObject (config_rules config) \<and>
         list_all (\<lambda>reg. \<not> isl (accept_rule (snd reg))) (own_fields (config_rules config)))) \<and>
   (isString a \<and> map_of (own_fields config) ''rules'' = None \<longrightarrow>
      ResourceProvider a config = Inr (new_provider (str_of a)))"
proof (intro conjI impI)
  assume "\<not> isString a"
  then show "ResourceProvider a config = Inl (TypeError ''appId is no string'')"
    by (simp add: ResourceProvider_def)
next
  assume "isString a"
  then show "(\<exists>this. ResourceProvider a config = Inr this) \<longleftrightarrow>
         falsy (config_rules config) \<or>
         isPlainObject (config_rules config) \<and>
         list_all (\<lambda>reg. \<not> isl (accept_rule (snd reg))) (own_fields (config_rules config))"
    using forOwn_useRule_Inr_iff [of "new_provider (str_of a)"
        "js_own_order (own_fields (config_rules config))"]
    by (simp add: ResourceProvider_def useRules_def list_all_js_own_order)
next
  assume "isString a \<and> map_of (own_fields config) ''rules'' = None"
  then show "ResourceProvider a config = Inr (new_provider (str_of a))"
    by (simp add: ResourceProvider_def useRules_def config_rules_eq js_own_order_def)
qed

theorem construction_outcome_witness:
  "ResourceProvider (JNum 42) JUndefined = Inl (TypeError ''appId is no string'') \<and>
   ResourceProvider JUndefined JUndefined = Inl (TypeError ''appId is no string'') \<and>
   ResourceProvider (JStr ''app'') JUndefined = Inr (new_provider ''app'') \<and>
   ResourceProvider (JStr ''app'') (JObj [(''foo'', JStr ''bar'')]) = Inr (new_provider ''app'') \<and>
   (\<exists>this. ResourceProvider (JStr ''app'')
      (JObj [(''rules'', JObj [(''dynamicDir/'', JFun 0), (''a/'', JStr ''b/''),
                               (''lockedDir/'', JBool False)])]) = Inr this) \<and>
   (\<nexists>this. ResourceProvider (JStr ''app'') (JObj [(''rules'', JObj [(''a/'', JNum 42)])]) = Inr this)"
proof -
  note T = construction_outcome
  have 1: "ResourceProvider (JNum 42) JUndefined = Inl (TypeError ''appId is no string'')"
    using T [of "JNum 42" JUndefined] by simp
  have 2: "ResourceProvider JUndefined JUndefined = Inl (TypeError ''appId is no string'')"
    using T [of JUndefined JUndefined] by simp
  have 3: "ResourceProvider (JStr ''app'') JUndefined = Inr (new_provider ''app'')"
    using T [of "JStr ''app''" JUndefined] by simp
  have 4: "ResourceProvider (JStr ''app'') (JObj [(''foo'', JStr ''bar'')]) = Inr (new_provider ''app'')"
    using T [of "JStr ''app''" "JObj [(''foo'', JStr ''bar'')]"] by simp
  have 5: "\<exists>this. ResourceProvider (JStr ''app'')
      (JObj [(''rules'', JObj [(''dynamicDir/'', JFun 0), (''a/'', JStr ''b/''),
                               (''lockedDir/'', JBool False)])]) = Inr this"
    using T [of "JStr ''app''" "JObj [(''rules'', JObj [(''dynamicDir/'', JFun 0),
      (''a/'', JStr ''b/''), (''lockedDir/'', JBool False)])]"]
    by (simp add: config_rules_eq accept_rule_def)
  have 6: "\<nexists>this. ResourceProvider (JStr ''app'') (JObj [(''rules'', JObj [(''a/'', JNum 42)])]) = Inr this"
    using T [of "JStr ''app''" "JObj [(''rules'', JObj [(''a/'', JNum 42)])]"]
    by (simp add: config_rules_eq accept_rule_def)
  from 1 2 3 4 5 6 show ?thesis by blast
qed

text \<open>
  C7 as stated, that a string \<^verbatim>\<open>appId\<close> is enough, fails for a \<^verbatim>\<open>config.rules\<close> that is not a
  plain object.
\<close>

theorem construction_fails:
  "isString (JStr ''app'') \<and>
   ResourceProvider (JStr ''app'') (JObj [(''rules'', JNum 42)]) =
     Inl (TypeError ''ruleset is no plain Object'')"
  by code_simp



text \<open>
  C9. \<^verbatim>\<open>getRule\<close> is documented to return a rule or undefined, and C9 says that a key whose
  canonical form was never registered gives undefined. The code reads \<^verbatim>\<open>this._rules[globs]\<close>
  on an object created as \<^verbatim>\<open>{}\<close>, so the read falls through to the prototype: on a new
  provider \<^verbatim>\<open>getRule("constructor")\<close> and \<^verbatim>\<open>getRule("toString")\<close> return functions of
  \<^verbatim>\<open>Object.prototype\<close> and \<^verbatim>\<open>getRule("__proto__")\<close> returns \<^verbatim>\<open>Object.prototype\<close> itself; after
  \<^verbatim>\<open>_useRule("__proto__", false)\<close>, which stores no own property and makes the rule object
  the prototype of \<^verbatim>\<open>_rules\<close>, \<^verbatim>\<open>getRule("action")\<close> returns \<^verbatim>\<open>false\<close>. A key that is no
  property of the prototype, such as \<^verbatim>\<open>"lockedDir/"\<close>, gives undefined.
\<close>

theorem getRule_reads_prototype:
  "getRule (new_provider ''app'') (JStr ''constructor'') = Inr (Builtin ''constructor'') \<and>
   getRule (new_provider ''app'') (JStr ''toString'') = Inr (Builtin ''toString'') \<and>
   getRule (new_provider ''app'') (JStr ''__proto__'') = Inr ObjectPrototype \<and>
   useRule (new_provider ''app'') (JStr ''__proto__'') (JBool False) =
     Inr (''__proto__'',
          \<lparr>appId = ''app'', rules = [],
           rules_proto = Some [(''action'', JBool False), (''$p'', JArr [JStr ''__proto__''])],
           dynamicHandlerCount = 0, staticRerouteCount = 0, staticLockCount = 1\<rparr>) \<and>
   getRule
     \<lparr>appId = ''app'', rules = [],
      rules_proto = Some [(''action'', JBool False), (''$p'', JArr [JStr ''__proto__''])],
      dynamicHandlerCount = 0, staticRerouteCount = 0, staticLockCount = 1\<rparr>
     (JStr ''action'') = Inr (Value (JBool False)) \<and>
   getRule (new_provider ''app'') (JStr ''lockedDir/'') = Inr (Value JUndefined)"
  by code_simp

text \<open>
  C10. \<^verbatim>\<open>handleResourcePath\<close> throws a type error exactly when its argument is not a
  string, and returns null for every string, whatever rules and counters the provider
  holds.
\<close>

theorem handleResourcePath_outcome:
  "((\<exists>msg. handleResourcePath this resourcePath = Inl (TypeError msg)) \<longleftrightarrow>
      \<not> isString resourcePath) \<and>
   (isString resourcePath \<longrightarrow> handleResourcePath this resourcePath = Inr JNull)"
  by (simp add: handleResourcePath_def)

theorem handleResourcePath_outcome_witness:
  "isString (JStr ''a/b'') \<and>
   handleResourcePath (new_provider ''app'') (JStr ''a/b'') = Inr JNull \<and>
   \<not> isString (JNum 42) \<and>
   (\<exists>msg. handleResourcePath (new_provider ''app'') (JNum 42) = Inl (TypeError msg))"
  using handleResourcePath_outcome [of "new_provider ''app''" "JStr ''a/b''"]
        handleResourcePath_outcome [of "new_provider ''app''" "JNum 42"]
  by simp

end
